theory Spec2Isabelle
  imports Complex_Main
begin

section \<open>The batch sampler of dwi\_ml (training/batch\_samplers.py)\<close>

text \<open>
  A shallow embedding of class \<open>DWIMLBatchSampler\<close>: its constructor, the generator
  \<open>__iter__\<close> and the helpers \<open>_sample_streamlines_for_subj\<close>,
  \<open>_get_a_chunk_of_streamlines\<close> and \<open>_compute_and_adjust_batch_size\<close>.

  Conventions.
  \<^item> Python exceptions are values of type \<open>error\<close>; a function that may raise returns
    \<open>error + 'a\<close>.
  \<^item> Sizes are floats. A float is modelled by the rational number it stands for, and the
    floating-point operations of the code (\<open>+\<close>, \<open>-\<close>, \<open>/\<close>, \<open>np.sum\<close>, \<open>np.cumsum\<close>) are
    those of a parameter \<open>ar\<close> of type \<open>arith\<close>, which says how they round. Infinities
    and NaN are outside the model.
  \<^item> The numpy generator \<open>self.np_rng\<close> is a tape of natural numbers: each random
    choice among \<open>n\<close> candidates reads one number \<open>t\<close> and takes candidate \<open>t mod n\<close>; an
    exhausted tape reads as zeros. Every outcome numpy can produce is the outcome of some
    tape, so a statement about all tapes is a statement about all seeds.
  \<^item> The mask \<open>global_unused_streamlines\<close> (an array of ones and zeros) is a list of
    booleans, passed to and returned by the functions that update it in place.
  \<^item> The three \<open>while True\<close> / \<open>for\<close> loops take fuel: one unit per iteration. Running out
    of fuel is a result of its own (\<open>None\<close>, \<open>OutOfFuel\<close>), never a normal return.
  \<^item> \<open>nb_subjects_per_batch\<close>, \<open>cycles\<close> and \<open>nb_streamlines_per_chunk\<close> are counts
    (\<open>nat\<close>; the first two may be \<open>None\<close>); negative values are outside the model.
  \<^item> Of the logging, only the warning of the constructor is modelled; the debug messages
    and the warning of the subject loop change nothing that is returned or yielded.
\<close>

subsection \<open>Errors, dataset, sampler\<close>

datatype error =
    ValueError string
  | AssertionError
  | KeyError
  | IndexError
  | ZeroDivisionError

text \<open>A Python \<open>slice(start, stop)\<close>.\<close>
type_synonym slice = "nat \<times> nat"

text \<open>A batch: the list of \<open>(subj, relative streamline ids)\<close>.\<close>
type_synonym batch = "(nat \<times> nat list) list"

type_synonym random_state = "nat list"

text \<open>
  The floating-point arithmetic under the sampler: the addition, subtraction and division
  of two floats, and \<open>np.sum\<close> of an array of floats, whose order of summation is internal
  to numpy. \<open>np.cumsum\<close> is not a field: it accumulates from left to right with the
  addition (see \<open>cumsum\<close>).
\<close>
record arith =
  fadd :: "rat \<Rightarrow> rat \<Rightarrow> rat"
  fsub :: "rat \<Rightarrow> rat \<Rightarrow> rat"
  fdiv :: "rat \<Rightarrow> rat \<Rightarrow> rat"
  np_sum :: "rat list \<Rightarrow> rat"

text \<open>
  Modelled from the spec: the class \<open>MultisubjectSubset\<close>
  (\<open>dwi_ml.data.dataset.multi_subject_containers\<close>) is not among the sources. The record
  holds the attributes that the sampler reads, as the specification describes the sequence
  pool: per streamline group (the lists are indexed by group) a total number of
  streamlines, a dict from subject to a slice of global ids (in insertion order), and the
  lengths in mm by global id; of \<open>subjs_data_list\<close> only the length is read.
\<close>
record multisubject_subset =
  streamline_groups :: "string list"
  total_nb_streamlines :: "nat list"
  streamline_ids_per_subj :: "(nat \<times> slice) list list"
  streamline_lengths_mm :: "rat list list"
  len_subjs_data_list :: nat

record sampler =
  dataset :: multisubject_subset
  streamline_group_name :: string
  nb_subjects_per_batch :: "nat option"
  cycles :: "nat option"
  nb_streamlines_per_chunk :: nat
  batch_size :: int
  batch_size_units :: string
  streamline_group_idx :: nat
  rng :: int
  np_rng :: random_state

text \<open>
  What the constructor touches outside the instance: the state of torch's process-global
  generator (the seed last set and the number of draws since), and the warnings sent to
  the root logger.
\<close>
record world =
  torch_rng :: "int \<times> nat"
  root_warnings :: "string list"

datatype outcome = Exhausted | Raised error | OutOfFuel

subsection \<open>Python and numpy primitives\<close>

text \<open>Truth value of an optional count: \<open>None\<close> and \<open>0\<close> are false.\<close>
fun truthy :: "nat option \<Rightarrow> bool" where
  "truthy None = False"
| "truthy (Some n) = (n \<noteq> 0)"

text \<open>\<open>list.index\<close>; \<open>None\<close> stands for its ValueError.\<close>
fun index_of :: "'a list \<Rightarrow> 'a \<Rightarrow> nat option" where
  "index_of [] x = None"
| "index_of (y # ys) x = (if y = x then Some 0 else map_option Suc (index_of ys x))"

text \<open>\<open>a[start:stop]\<close>: a slice is clamped to the array, it never raises.\<close>
definition slice_get :: "slice \<Rightarrow> 'a list \<Rightarrow> 'a list" where
  "slice_get sl xs = take (snd sl - fst sl) (drop (fst sl) xs)"

text \<open>\<open>np.sum\<close> of a 0/1 array.\<close>
definition count_true :: "bool list \<Rightarrow> nat" where
  "count_true xs = length (filter (\<lambda>b. b) xs)"

definition flatnonzero :: "bool list \<Rightarrow> nat list" where
  "flatnonzero xs = filter (\<lambda>i. xs ! i) [0..<length xs]"

text \<open>
  \<open>np.cumsum\<close>: the first element as it is, then each element added, with the float
  addition, to the sum accumulated so far.
\<close>
fun cumsum_from :: "arith \<Rightarrow> rat \<Rightarrow> rat list \<Rightarrow> rat list" where
  "cumsum_from ar acc [] = []"
| "cumsum_from ar acc (x # xs) = fadd ar acc x # cumsum_from ar (fadd ar acc x) xs"

definition cumsum :: "arith \<Rightarrow> rat list \<Rightarrow> rat list" where
  "cumsum ar xs = (case xs of [] \<Rightarrow> [] | x # rest \<Rightarrow> x # cumsum_from ar x rest)"

text \<open>Indexing by a boolean array of the same length: \<open>a[selected]\<close>.\<close>
definition mask_select :: "'a list \<Rightarrow> bool list \<Rightarrow> 'a list" where
  "mask_select a selected = map fst (filter snd (zip a selected))"

text \<open>\<open>mask[ids] = 0\<close>; numpy raises IndexError when an id is out of bounds.\<close>
definition mask_clear :: "bool list \<Rightarrow> nat list \<Rightarrow> error + bool list" where
  "mask_clear unused ids =
     (if list_all (\<lambda>i. i < length unused) ids
      then Inr (fold (\<lambda>i m. m[i := False]) ids unused)
      else Inl IndexError)"

text \<open>
  \<open>RandomState.choice(a, size)\<close> for a non-empty \<open>a\<close>: \<open>size\<close> draws with replacement
  (numpy's default), in draw order.
\<close>
definition choice :: "random_state \<Rightarrow> 'a list \<Rightarrow> nat \<Rightarrow> 'a list \<times> random_state" where
  "choice r a k =
     (map (\<lambda>t. a ! (t mod length a)) (take k (r @ replicate k 0)), drop k r)"

text \<open>
  \<open>RandomState.choice(a, size, replace=False, p)\<close>, given the candidates of non-zero
  probability: \<open>size\<close> draws, each removing the candidate it takes.
\<close>
fun choice_no_replace :: "random_state \<Rightarrow> nat list \<Rightarrow> nat \<Rightarrow> nat list \<times> random_state" where
  "choice_no_replace r cands 0 = ([], r)"
| "choice_no_replace r cands (Suc k) =
     (let t = (case r of [] \<Rightarrow> 0 | t # _ \<Rightarrow> t);
          c = cands ! (t mod length cands)
      in case choice_no_replace (tl r) (remove1 c cands) k of
           (cs, r') \<Rightarrow> (c # cs, r'))"

subsection \<open>The constructor\<close>

text \<open>
  The checks and effects of \<open>__init__\<close> in the order of the source: the three checks of the
  arguments (with the warning between the second and the third), the index of the group,
  \<open>np.random.RandomState(rng)\<close>, which raises ValueError unless the seed is between 0 and
  \<open>2**32 - 1\<close>, then \<open>torch.manual_seed\<close>. The tape that numpy makes from a valid seed
  is the parameter \<open>RandomState\<close>.
\<close>
definition init ::
  "(int \<Rightarrow> random_state) \<Rightarrow> world \<Rightarrow> multisubject_subset \<Rightarrow> string \<Rightarrow> int \<Rightarrow> string \<Rightarrow> nat \<Rightarrow>
     int \<Rightarrow> nat option \<Rightarrow> nat option \<Rightarrow> (error + sampler) \<times> world" where
  "init RandomState w ds group_name bsize units chunk seed nb_subjs cyc =
     (if bsize \<le> 0 then (Inl (ValueError ''batch_size should be a positive integeral value''), w)
      else if units \<noteq> ''nb_streamlines'' \<and> units \<noteq> ''length_mm''
        then (Inl (ValueError ''batch_size_unit should either be nb_streamlines or length_mm''), w)
      else
        let w1 = (if units = ''nb_streamlines'' \<and> int chunk \<noteq> bsize
                  then w\<lparr>root_warnings := root_warnings w @ [''the chunk size is not used. Ignored'']\<rparr>
                  else w)
        in if truthy cyc \<and> \<not> truthy nb_subjs
           then (Inl (ValueError ''If cycles is defined, nb_subjects_per_batch should be defined''), w1)
           else (case index_of (streamline_groups ds) group_name of
                   None \<Rightarrow> (Inl (ValueError ''is not in list''), w1)
                 | Some idx \<Rightarrow>
                     if \<not> (0 \<le> seed \<and> seed < 2 ^ 32)
                     then (Inl (ValueError ''Seed must be between 0 and 2**32 - 1''), w1)
                     else
                     (Inr \<lparr>dataset = ds,
                           streamline_group_name = group_name,
                           nb_subjects_per_batch = nb_subjs,
                           cycles = cyc,
                           nb_streamlines_per_chunk =
                             (if units = ''nb_streamlines'' then nat bsize else chunk),
                           batch_size = bsize,
                           batch_size_units = units,
                           streamline_group_idx = idx,
                           rng = seed,
                           np_rng = RandomState seed\<rparr>,
                      w1\<lparr>torch_rng := (seed, 0)\<rparr>)))"

subsection \<open>One chunk of streamlines\<close>

text \<open>
  The size of each streamline chosen: its length in mm, or 1.0 (\<open>np.ones\<close>). No float
  operation here.
\<close>
definition compute_and_adjust_batch_size :: "sampler \<Rightarrow> nat list \<Rightarrow> error + rat list" where
  "compute_and_adjust_batch_size s chosen_global_ids =
     (if batch_size_units s = ''length_mm'' then
        (if streamline_group_idx s < length (streamline_lengths_mm (dataset s)) then
           (let l_mm = streamline_lengths_mm (dataset s) ! streamline_group_idx s
            in if list_all (\<lambda>g. g < length l_mm) chosen_global_ids
               then Inr (map (\<lambda>g. l_mm ! g) chosen_global_ids)
               else Inl IndexError)
         else Inl IndexError)
      else Inr (replicate (length chosen_global_ids) 1))"

text \<open>
  What \<open>_get_a_chunk_of_streamlines\<close> returns: the early return (no streamline left)
  is a tuple of four values, the final return a tuple of five.
\<close>
datatype chunk_ret =
    Ret4 "nat list" "nat list" bool bool
  | Ret5 "nat list" "nat list" rat bool bool

definition get_a_chunk_of_streamlines ::
  "arith \<Rightarrow> sampler \<Rightarrow> slice \<Rightarrow> bool list \<Rightarrow> rat \<Rightarrow> rat \<Rightarrow> random_state \<Rightarrow> error + (chunk_ret \<times> random_state)" where
  "get_a_chunk_of_streamlines ar s subj_slice global_unused_streamlines
       current_subbatch_size max_subbatch_size r =
     (let subj_unused_ids_in_global =
            map (\<lambda>i. i + fst subj_slice) (flatnonzero (slice_get subj_slice global_unused_streamlines))
      in if length subj_unused_ids_in_global = 0 then Inr (Ret4 [] [] True False, r)
         else
           (case choice r subj_unused_ids_in_global (nb_streamlines_per_chunk s) of
              (chosen_global_ids, r') \<Rightarrow>
                (case compute_and_adjust_batch_size s chosen_global_ids of
                   Inl e \<Rightarrow> Inl e
                 | Inr size_per_streamline \<Rightarrow>
                     if fadd ar current_subbatch_size (np_sum ar size_per_streamline)
                          \<ge> max_subbatch_size
                     then
                       (let selected = map (\<lambda>c. c < fsub ar max_subbatch_size current_subbatch_size)
                                           (cumsum ar size_per_streamline);
                            chosen = mask_select chosen_global_ids selected;
                            sizes = mask_select size_per_streamline selected
                        in Inr (Ret5 chosen (map (\<lambda>g. g - fst subj_slice) chosen)
                                     (np_sum ar sizes) False True, r'))
                     else
                       Inr (Ret5 chosen_global_ids
                                 (map (\<lambda>g. g - fst subj_slice) chosen_global_ids)
                                 (np_sum ar size_per_streamline) False False, r'))))"

subsection \<open>The streamlines of one subject\<close>

text \<open>
  The \<open>while True\<close> loop of \<open>_sample_streamlines_for_subj\<close>. The caller unpacks five
  values; on the tuple of four Python raises ValueError.
\<close>
fun sample_loop ::
  "arith \<Rightarrow> nat \<Rightarrow> sampler \<Rightarrow> slice \<Rightarrow> rat \<Rightarrow> nat list \<Rightarrow> bool list \<Rightarrow> random_state \<Rightarrow> rat \<Rightarrow>
     (error + (nat list \<times> bool list \<times> random_state)) option" where
  "sample_loop ar 0 s subj_slice max_batch_size_per_subj sampled_ids unused r total_subj_batch_size = None"
| "sample_loop ar (Suc n) s subj_slice max_batch_size_per_subj sampled_ids unused r total_subj_batch_size =
     (case get_a_chunk_of_streamlines ar s subj_slice unused total_subj_batch_size
             max_batch_size_per_subj r of
        Inl e \<Rightarrow> Some (Inl e)
      | Inr (Ret4 _ _ _ _, r') \<Rightarrow>
          Some (Inl (ValueError ''not enough values to unpack (expected 5, got 4)''))
      | Inr (Ret5 subbatch_global_ids subbatch_rel_ids subj_subbatch_size
                  no_streamlines_left reached_max, r') \<Rightarrow>
          if no_streamlines_left then Some (Inr (sampled_ids, unused, r'))
          else
            (case mask_clear unused subbatch_global_ids of
               Inl e \<Rightarrow> Some (Inl e)
             | Inr unused' \<Rightarrow>
                 if reached_max then Some (Inr (sampled_ids @ subbatch_rel_ids, unused', r'))
                 else sample_loop ar n s subj_slice max_batch_size_per_subj
                        (sampled_ids @ subbatch_rel_ids) unused' r'
                        (fadd ar total_subj_batch_size subj_subbatch_size)))"

definition sample_streamlines_for_subj ::
  "arith \<Rightarrow> nat \<Rightarrow> sampler \<Rightarrow> nat \<Rightarrow> (nat \<times> slice) list \<Rightarrow> bool list \<Rightarrow> rat \<Rightarrow> random_state \<Rightarrow>
     (error + (nat list \<times> bool list \<times> random_state)) option" where
  "sample_streamlines_for_subj ar fuel s subj ids_per_subjs unused max_batch_size_per_subj r =
     (case map_of ids_per_subjs subj of
        None \<Rightarrow> Some (Inl KeyError)
      | Some subj_slice \<Rightarrow>
          sample_loop ar fuel s subj_slice max_batch_size_per_subj [] unused r 0)"

subsection \<open>The generator\<close>

text \<open>\<open>for subj in sampled_subjs\<close>: one pair per subject, appended whatever its list.\<close>
fun subj_loop ::
  "arith \<Rightarrow> nat \<Rightarrow> sampler \<Rightarrow> (nat \<times> slice) list \<Rightarrow> rat \<Rightarrow> nat list \<Rightarrow> batch \<Rightarrow> bool list \<Rightarrow> random_state \<Rightarrow>
     (error + (batch \<times> bool list \<times> random_state)) option" where
  "subj_loop ar fuel s ids_per_subjs maxb [] batch_ids_per_subj unused r =
     Some (Inr (batch_ids_per_subj, unused, r))"
| "subj_loop ar fuel s ids_per_subjs maxb (subj # rest) batch_ids_per_subj unused r =
     (case sample_streamlines_for_subj ar fuel s subj ids_per_subjs unused maxb r of
        None \<Rightarrow> None
      | Some (Inl e) \<Rightarrow> Some (Inl e)
      | Some (Inr (sampled_ids, unused', r')) \<Rightarrow>
          subj_loop ar fuel s ids_per_subjs maxb rest
            (batch_ids_per_subj @ [(subj, sampled_ids)]) unused' r')"

text \<open>
  The choice of the subjects of the next cycles: weighted and without replacement when
  \<open>nb_subjects_per_batch\<close> is set, all the keys of the dict otherwise. Returns
  \<open>sampled_subjs\<close> and \<open>nb_subjects\<close>.
\<close>
definition choose_subjects ::
  "arith \<Rightarrow> sampler \<Rightarrow> (nat \<times> slice) list \<Rightarrow> nat list \<Rightarrow> random_state \<Rightarrow>
     error + (nat list \<times> nat \<times> random_state)" where
  "choose_subjects ar s ids_per_subjs streamlines_per_subj r =
     (case nb_subjects_per_batch s of
        None \<Rightarrow> Inr (map fst ids_per_subjs, length ids_per_subjs, r)
      | Some k \<Rightarrow>
          if k = 0 then Inr (map fst ids_per_subjs, length ids_per_subjs, r)
          else
            (let weights = map (\<lambda>c. fdiv ar (of_nat c) (of_nat (sum_list streamlines_per_subj)))
                               streamlines_per_subj;
                 nonzero = filter (\<lambda>i. weights ! i \<noteq> 0) [0..<length weights];
                 nb_subjects = min k (length nonzero)
             in if len_subjs_data_list (dataset s) \<noteq> length weights
                then Inl (ValueError ''a and p must have same size'')
                else (case choice_no_replace r nonzero nb_subjects of
                        (sampled_subjs, r') \<Rightarrow> Inr (sampled_subjs, nb_subjects, r'))))"

text \<open>
  The body of \<open>__iter__\<close>: \<open>outer_loop\<close> is the \<open>while True\<close>, \<open>cycle_loop\<close> the
  \<open>for _ in iterator\<close>, whose iterator is \<open>range(cycles)\<close> (\<open>Some\<close> of what is left of
  it) or the infinite \<open>iter(int, 1)\<close> (\<open>None\<close>). The result is the list of the batches
  yielded and how the generator ended.
\<close>
fun outer_loop ::
  "arith \<Rightarrow> nat \<Rightarrow> sampler \<Rightarrow> (nat \<times> slice) list \<Rightarrow> bool list \<Rightarrow> random_state \<Rightarrow> batch list \<times> outcome"
and cycle_loop ::
  "arith \<Rightarrow> nat \<Rightarrow> sampler \<Rightarrow> (nat \<times> slice) list \<Rightarrow> nat list \<Rightarrow> rat \<Rightarrow> nat option \<Rightarrow> bool list \<Rightarrow>
     random_state \<Rightarrow> batch list \<times> outcome" where
  "outer_loop ar 0 s ids_per_subjs unused r = ([], OutOfFuel)"
| "outer_loop ar (Suc n) s ids_per_subjs unused r =
     (let streamlines_per_subj =
            map (\<lambda>(_, subj_id_slice). count_true (slice_get subj_id_slice unused)) ids_per_subjs
      in if sum_list streamlines_per_subj \<noteq> count_true unused then ([], Raised AssertionError)
         else if sum_list streamlines_per_subj = 0 then ([], Exhausted)
         else
           (case choose_subjects ar s ids_per_subjs streamlines_per_subj r of
              Inl e \<Rightarrow> ([], Raised e)
            | Inr (sampled_subjs, nb_subjects, r') \<Rightarrow>
                if nb_subjects = 0 then ([], Raised ZeroDivisionError)
                else cycle_loop ar n s ids_per_subjs sampled_subjs
                       (fdiv ar (of_int (batch_size s)) (of_nat nb_subjects))
                       (if truthy (cycles s) then cycles s else None) unused r'))"
| "cycle_loop ar 0 s ids_per_subjs sampled_subjs maxb iterator unused r = ([], OutOfFuel)"
| "cycle_loop ar (Suc n) s ids_per_subjs sampled_subjs maxb iterator unused r =
     (if iterator = Some 0 then outer_loop ar n s ids_per_subjs unused r
      else
        (case subj_loop ar n s ids_per_subjs maxb sampled_subjs [] unused r of
           None \<Rightarrow> ([], OutOfFuel)
         | Some (Inl e) \<Rightarrow> ([], Raised e)
         | Some (Inr (batch_ids_per_subj, unused', r')) \<Rightarrow>
             if length batch_ids_per_subj = 0 then outer_loop ar n s ids_per_subjs unused' r'
             else
               (case cycle_loop ar n s ids_per_subjs sampled_subjs maxb
                       (map_option (\<lambda>c. c - 1) iterator) unused' r' of
                  (batches, out) \<Rightarrow> (batch_ids_per_subj # batches, out))))"

definition iter :: "arith \<Rightarrow> nat \<Rightarrow> sampler \<Rightarrow> batch list \<times> outcome" where
  "iter ar fuel s =
     (let idx = streamline_group_idx s
      in if idx < length (total_nb_streamlines (dataset s))
            \<and> idx < length (streamline_ids_per_subj (dataset s))
         then outer_loop ar fuel s (streamline_ids_per_subj (dataset s) ! idx)
                (replicate (total_nb_streamlines (dataset s) ! idx) True) (np_rng s)
         else ([], Raised IndexError))"

subsection \<open>Concrete datasets and samplers\<close>

text \<open>One subject (number 0) with one streamline of 10 mm, in the group \<open>g\<close>.\<close>
definition tiny_dataset :: multisubject_subset where
  "tiny_dataset =
     \<lparr>streamline_groups = [''g''], total_nb_streamlines = [1],
      streamline_ids_per_subj = [[(0, (0, 1))]], streamline_lengths_mm = [[10]],
      len_subjs_data_list = 1\<rparr>"

text \<open>
  The arithmetic that never rounds. float64 arithmetic agrees with it on an operation
  whose operands and exact result are integers below \<open>2^53\<close>; in the concrete runs
  below every operation is such (sizes are ones or whole numbers of mm, and the batch
  size is divided by one subject).
\<close>
definition exact_arith :: arith where
  "exact_arith =
     \<lparr>fadd = (\<lambda>a b. a + b), fsub = (\<lambda>a b. a - b), fdiv = (\<lambda>a b. a / b), np_sum = sum_list\<rparr>"

text \<open>A generator whose tape is empty whatever the seed: every draw takes candidate 0.\<close>
definition zero_tape :: "int \<Rightarrow> random_state" where
  "zero_tape seed = []"

definition fresh_world :: world where
  "fresh_world = \<lparr>torch_rng = (0, 0), root_warnings = []\<rparr>"

text \<open>
  The sampler that the constructor builds over the group \<open>g\<close> with seed 0, for a batch
  size in number of streamlines and for one in mm; \<open>r\<close> is the tape of its generator.
\<close>
definition count_sampler ::
  "multisubject_subset \<Rightarrow> int \<Rightarrow> nat option \<Rightarrow> nat option \<Rightarrow> random_state \<Rightarrow> sampler" where
  "count_sampler ds b nb_subjs cyc r =
     \<lparr>dataset = ds, streamline_group_name = ''g'', nb_subjects_per_batch = nb_subjs,
      cycles = cyc, nb_streamlines_per_chunk = nat b, batch_size = b,
      batch_size_units = ''nb_streamlines'', streamline_group_idx = 0, rng = 0, np_rng = r\<rparr>"

definition length_sampler ::
  "multisubject_subset \<Rightarrow> int \<Rightarrow> nat \<Rightarrow> nat option \<Rightarrow> nat option \<Rightarrow> random_state \<Rightarrow> sampler" where
  "length_sampler ds b chunk nb_subjs cyc r =
     \<lparr>dataset = ds, streamline_group_name = ''g'', nb_subjects_per_batch = nb_subjs,
      cycles = cyc, nb_streamlines_per_chunk = chunk, batch_size = b,
      batch_size_units = ''length_mm'', streamline_group_idx = 0, rng = 0, np_rng = r\<rparr>"

text \<open>Scenario C: one subject with three streamlines of 50, 60 and 5 mm.\<close>
definition scenario_C_dataset :: multisubject_subset where
  "scenario_C_dataset =
     \<lparr>streamline_groups = [''g''], total_nb_streamlines = [3],
      streamline_ids_per_subj = [[(0, (0, 3))]], streamline_lengths_mm = [[50, 60, 5]],
      len_subjs_data_list = 1\<rparr>"

text \<open>Scenario A: two subjects, with the slices \<open>[0, 10)\<close> and \<open>[10, 15)\<close>; no lengths.\<close>
definition scenario_A_dataset :: multisubject_subset where
  "scenario_A_dataset =
     \<lparr>streamline_groups = [''g''], total_nb_streamlines = [15],
      streamline_ids_per_subj = [[(0, (0, 10)), (1, (10, 15))]], streamline_lengths_mm = [[]],
      len_subjs_data_list = 2\<rparr>"

text \<open>
  A property of float addition that the trim relies on: adding a non-negative float does
  not give less than what it is added to. float64 addition has it (it rounds the exact
  sum, which is not below the first operand, and rounding keeps the order of a number and
  a float).
\<close>
definition add_does_not_decrease :: "arith \<Rightarrow> bool" where
  "add_does_not_decrease ar = (\<forall>a b. 0 \<le> b \<longrightarrow> a \<le> fadd ar a b)"

section \<open>Properties\<close>

subsection \<open>Evaluation lemmas\<close>

lemma choice_singleton: "choice r [a] k = (replicate k a, drop k r)"
  by (simp add: choice_def map_replicate_const)

lemmas eval_defs =
  exact_arith_def cumsum_def iter_def count_sampler_def length_sampler_def tiny_dataset_def choose_subjects_def
  sample_streamlines_for_subj_def get_a_chunk_of_streamlines_def choice_singleton
  compute_and_adjust_batch_size_def flatnonzero_def slice_get_def count_true_def
  mask_select_def mask_clear_def eval_nat_numeral Let_def

text \<open>The two concrete samplers are what the constructor returns.\<close>

lemma count_sampler_constructed:
  assumes "0 < b" and "\<not> (truthy cyc \<and> \<not> truthy nb_subjs)"
    and "index_of (streamline_groups ds) ''g'' = Some 0"
  shows "fst (init (\<lambda>_. r) w ds ''g'' b ''nb_streamlines'' c 0 nb_subjs cyc)
           = Inr (count_sampler ds b nb_subjs cyc r)"
  using assms by (auto simp: init_def count_sampler_def Let_def)

lemma length_sampler_constructed:
  assumes "0 < b" and "\<not> (truthy cyc \<and> \<not> truthy nb_subjs)"
    and "index_of (streamline_groups ds) ''g'' = Some 0"
  shows "fst (init (\<lambda>_. r) w ds ''g'' b ''length_mm'' c 0 nb_subjs cyc)
           = Inr (length_sampler ds b c nb_subjs cyc r)"
  using assms by (auto simp: init_def length_sampler_def Let_def)

subsection \<open>A subject without unused streamlines\<close>

text \<open>
  Whatever the sampler and the arithmetic, a subject whose slice has no unused streamline makes
  \<open>_get_a_chunk_of_streamlines\<close> return its tuple of four values, and the subject loop
  raise on unpacking it.
\<close>

lemma used_slice_returns_four:
  assumes "flatnonzero (slice_get sl unused) = []"
  shows "get_a_chunk_of_streamlines ar s sl unused cur maxb r = Inr (Ret4 [] [] True False, r)"
  using assms by (simp add: get_a_chunk_of_streamlines_def)

lemma used_slice_raises:
  assumes "flatnonzero (slice_get sl unused) = []"
  shows "sample_loop ar (Suc n) s sl maxb sampled unused r cur =
           Some (Inl (ValueError ''not enough values to unpack (expected 5, got 4)''))"
  by (simp add: used_slice_returns_four [OF assms])

text \<open>
  C1. The claim: a chunk asked of a subject whose slice is all used reports that no
  streamline is left, the subject loop ends that subject's contribution, and nothing is
  raised. In the code the early return of \<open>_get_a_chunk_of_streamlines\<close> has four values
  and its caller unpacks five. One subject with one streamline, a batch size of 2
  streamlines, no limit on subjects or cycles: the first batch takes the streamline, the
  second cycle finds the slice used, and the generator dies of a ValueError, whatever the
  tape and with any fuel from 4 on.
\<close>
theorem used_slice_raises_at_tiny:
  "iter exact_arith (Suc (Suc (Suc (Suc n)))) (count_sampler tiny_dataset 2 None None r) =
     ([[(0, [0])]], Raised (ValueError ''not enough values to unpack (expected 5, got 4)''))"
  by (simp add: eval_defs)

subsection \<open>Reuse of a streamline\<close>

text \<open>
  C2. The claim: no global id is selected twice in an epoch, neither within a batch nor
  across batches. The chunk is drawn with replacement. One subject with one streamline and
  a batch size of 3 streamlines: the three draws are the same streamline, the trim keeps
  two of them, and the only batch of the epoch holds relative id 0 twice, whatever the
  tape.
\<close>
theorem duplicate_ids_at_tiny:
  "iter exact_arith (Suc (Suc (Suc (Suc n)))) (count_sampler tiny_dataset 3 (Some 1) (Some 1) r) =
     ([[(0, [0, 0])]], Exhausted)"
  by (simp add: eval_defs)

subsection \<open>Empty contributions\<close>

text \<open>
  C9. The claim: a yielded batch holds no pair with an empty list of relative ids. The
  pair of every sampled subject is appended. One subject with one streamline of 10 mm and
  a batch size of 5 mm: the streamline does not fit, and the batch yielded is the pair of
  subject 0 with no id.
\<close>
theorem empty_pair_yielded_at_tiny:
  "iter exact_arith 3 (length_sampler tiny_dataset 5 1 None None r) = ([[(0, [])]], OutOfFuel)"
  by (simp add: eval_defs)

lemma cycle_loop_forever:
  "cycle_loop exact_arith (Suc n) (count_sampler tiny_dataset 1 None None r0) [(0, (0, 1))] [0] 1
       None
       [True] r =
     (replicate n [(0, [])], OutOfFuel)"
proof (induction n arbitrary: r)
  case 0
  show ?case by (simp add: sample_streamlines_for_subj_def)
next
  case (Suc n)
  have "subj_loop exact_arith (Suc n) (count_sampler tiny_dataset 1 None None r0) [(0, (0, 1))]
          1 [0] []
          [True] r
        = Some (Inr ([(0, [])], [True], drop 1 r))"
    by (simp add: eval_defs)
  then show ?case using Suc.IH [of "drop 1 r"] by simp
qed

text \<open>
  C3. The claim: an epoch yields finitely many batches and ends, and a cycle whose batch
  has no relative id breaks out of the cycle loop. The test of the code is on the number
  of pairs, which is the number of sampled subjects. One subject with one streamline and a
  batch size of 1 streamline: the trim keeps the ids whose cumulated size is below 1, that
  is none; nothing is ever marked used, and with \<open>n + 2\<close> units of fuel the generator has
  yielded \<open>n\<close> batches without any id and is still running.
\<close>
theorem empty_batches_forever_at_tiny:
  "iter exact_arith (Suc (Suc n)) (count_sampler tiny_dataset 1 None None r) =
     (replicate n [(0, [])], OutOfFuel)"
  using cycle_loop_forever [of n r r]
  by (simp add: iter_def count_sampler_def tiny_dataset_def choose_subjects_def
      slice_get_def count_true_def exact_arith_def)

subsection \<open>The constructor\<close>

text \<open>
  C6. The claim: a batch size in number of streamlines with a different chunk size makes
  the constructor fail. Here it returns a sampler.
\<close>
theorem count_chunk_mismatch_counterexample:
  "\<not> isl (fst (init zero_tape fresh_world tiny_dataset ''g'' 5 ''nb_streamlines'' 3 0 None None))"
  by (simp add: init_def tiny_dataset_def Let_def)

text \<open>
  C6, amended. With a batch size in number of streamlines and a different chunk size, and
  the other arguments valid (a positive batch size, no cycles without a number of subjects
  per batch, a group of the dataset, a seed that numpy accepts, from 0 to \<open>2**32 - 1\<close>),
  the constructor returns a sampler: it sends one warning to the root logger, ignores the
  chunk size given and takes the batch size as chunk size.
\<close>
theorem count_chunk_mismatch_ignored:
  assumes "0 < b" and "\<not> (truthy cyc \<and> \<not> truthy nb_subjs)"
    and "index_of (streamline_groups ds) group_name = Some idx"
    and "int chunk \<noteq> b"
    and "0 \<le> seed" and "seed < 2 ^ 32"
  shows "\<exists>s. init RandomState w ds group_name b ''nb_streamlines'' chunk seed nb_subjs cyc =
           (Inr s, w\<lparr>root_warnings := root_warnings w @ [''the chunk size is not used. Ignored''],
                    torch_rng := (seed, 0)\<rparr>)
         \<and> nb_streamlines_per_chunk s = nat b \<and> batch_size s = b"
  using assms by (simp add: init_def Let_def)

theorem count_chunk_mismatch_ignored_witness:
  "(0::int) < 5 \<and> \<not> (truthy None \<and> \<not> truthy None)
   \<and> index_of (streamline_groups tiny_dataset) ''g'' = Some 0 \<and> int 3 \<noteq> 5
   \<and> (0::int) \<le> 0 \<and> (0::int) < 2 ^ 32
   \<and> (\<exists>s. init zero_tape fresh_world tiny_dataset ''g'' 5 ''nb_streamlines'' 3 0 None None =
           (Inr s, fresh_world\<lparr>root_warnings :=
                                  root_warnings fresh_world @ [''the chunk size is not used. Ignored''],
                               torch_rng := (0, 0)\<rparr>)
         \<and> nb_streamlines_per_chunk s = nat 5 \<and> batch_size s = 5)"
proof -
  have h: "index_of (streamline_groups tiny_dataset) ''g'' = Some 0"
    by (simp add: tiny_dataset_def)
  show ?thesis
    using h count_chunk_mismatch_ignored
              [of 5 None None tiny_dataset "''g''" 0 3 0 zero_tape fresh_world]
    by simp
qed

subsection \<open>The effect of the constructor on torch\<close>

text \<open>
  C10. A construction that succeeds leaves the sampler with its own numpy generator made
  from the seed, and sets the seed of torch's process-global generator; a second
  construction sets it again, to its own seed.
\<close>
theorem init_sets_torch_seed:
  assumes "init RandomState w ds group_name b units chunk seed nb_subjs cyc = (Inr s1, w1)"
    and "init RandomState w1 ds' group_name' b' units' chunk' seed' nb_subjs' cyc' = (Inr s2, w2)"
  shows "np_rng s1 = RandomState seed \<and> torch_rng w1 = (seed, 0) \<and> torch_rng w2 = (seed', 0)"
  using assms by (auto simp: init_def Let_def split: if_splits option.splits)

theorem init_sets_torch_seed_witness:
  "init zero_tape fresh_world tiny_dataset ''g'' 2 ''nb_streamlines'' 2 11 None None
     = (Inr ((count_sampler tiny_dataset 2 None None [])\<lparr>rng := 11\<rparr>),
        fresh_world\<lparr>torch_rng := (11, 0)\<rparr>)
   \<and> init zero_tape (fresh_world\<lparr>torch_rng := (11, 0)\<rparr>) tiny_dataset ''g'' 2
        ''nb_streamlines'' 2 22 None None
     = (Inr ((count_sampler tiny_dataset 2 None None [])\<lparr>rng := 22\<rparr>),
        fresh_world\<lparr>torch_rng := (22, 0)\<rparr>)
   \<and> torch_rng (fresh_world\<lparr>torch_rng := (11, 0)\<rparr>) = (11, 0)
   \<and> torch_rng (fresh_world\<lparr>torch_rng := (22, 0)\<rparr>) = (22, 0)"
proof -
  have h1: "init zero_tape fresh_world tiny_dataset ''g'' 2 ''nb_streamlines'' 2 11 None None
     = (Inr ((count_sampler tiny_dataset 2 None None [])\<lparr>rng := 11\<rparr>),
        fresh_world\<lparr>torch_rng := (11, 0)\<rparr>)"
    by (simp add: init_def tiny_dataset_def count_sampler_def zero_tape_def Let_def)
  have h2: "init zero_tape (fresh_world\<lparr>torch_rng := (11, 0)\<rparr>) tiny_dataset ''g'' 2
        ''nb_streamlines'' 2 22 None None
     = (Inr ((count_sampler tiny_dataset 2 None None [])\<lparr>rng := 22\<rparr>),
        fresh_world\<lparr>torch_rng := (22, 0)\<rparr>)"
    by (simp add: init_def tiny_dataset_def count_sampler_def zero_tape_def fresh_world_def Let_def)
  show ?thesis
    using h1 h2 init_sets_torch_seed [OF h1 h2] by simp
qed

text \<open>
  A seed that numpy refuses makes the constructor raise before it reaches
  \<open>torch.manual_seed\<close>: torch's generator is left as it was.
\<close>

lemma init_bad_seed_keeps_torch:
  assumes "\<not> (0 \<le> seed \<and> seed < 2 ^ 32)"
  shows "isl (fst (init RandomState w ds group_name b units chunk seed nb_subjs cyc))
       \<and> torch_rng (snd (init RandomState w ds group_name b units chunk seed nb_subjs cyc))
           = torch_rng w"
  using assms by (auto simp: init_def Let_def split: option.splits)

subsection \<open>Selection by a boolean array\<close>

lemma mask_select_simps:
  "mask_select [] bs = []"
  "mask_select xs [] = []"
  "mask_select (x # xs) (b # bs) = (if b then x # mask_select xs bs else mask_select xs bs)"
  by (simp_all add: mask_select_def)

subsection \<open>Scenario A\<close>

lemma length_choice: "length (fst (choice r a k)) = k"
  by (simp add: choice_def)

lemma length_choice_no_replace: "length (fst (choice_no_replace r cands k)) = k"
proof (induction k arbitrary: r cands)
  case 0
  show ?case by simp
next
  case (Suc k)
  let ?c = "cands ! ((case r of [] \<Rightarrow> 0 | t # _ \<Rightarrow> t) mod length cands)"
  obtain cs r1 where eq: "choice_no_replace (tl r) (remove1 ?c cands) k = (cs, r1)"
    by (cases "choice_no_replace (tl r) (remove1 ?c cands) k")
  from Suc.IH [of "tl r" "remove1 ?c cands"] eq have "length cs = k" by simp
  then show ?case by (simp add: Let_def eq)
qed

lemma count_chunk_keeps_four:
  assumes units: "batch_size_units s \<noteq> ''length_mm''"
    and chunk5: "nb_streamlines_per_chunk s = 5"
    and chunk: "get_a_chunk_of_streamlines exact_arith s sl unused 0 5 r = Inr (Ret5 gids rids sz nl reached, r')"
  shows "length rids = 4 \<and> reached \<and> \<not> nl"
proof -
  let ?ids = "map (\<lambda>i. i + fst sl) (flatnonzero (slice_get sl unused))"
  from chunk have ne: "?ids \<noteq> []"
    by (auto simp: get_a_chunk_of_streamlines_def Let_def split: if_splits)
  obtain chosen r1 where draw: "choice r ?ids 5 = (chosen, r1)"
    by (cases "choice r ?ids 5")
  have "length chosen = 5" using length_choice [of r ?ids 5] draw by simp
  then obtain a b c d e where chosen: "chosen = [a, b, c, d, e]"
    by (auto simp: length_Suc_conv eval_nat_numeral)
  have sizes: "compute_and_adjust_batch_size s chosen = Inr [1, 1, 1, 1, 1]"
    using units by (simp add: compute_and_adjust_batch_size_def chosen eval_nat_numeral)
  from chunk ne draw sizes chunk5
  show ?thesis
    by (auto simp: get_a_chunk_of_streamlines_def Let_def cumsum_def exact_arith_def chosen
        mask_select_simps)
qed

lemma count_sample_four:
  assumes units: "batch_size_units s \<noteq> ''length_mm''"
    and chunk5: "nb_streamlines_per_chunk s = 5"
    and run: "sample_streamlines_for_subj exact_arith n s subj ips unused 5 r = Some (Inr (ids, unused', r'))"
  shows "length ids = 4"
proof -
  from run obtain sl where "sample_loop exact_arith n s sl 5 [] unused r 0 = Some (Inr (ids, unused', r'))"
    by (auto simp: sample_streamlines_for_subj_def split: option.splits)
  moreover then obtain m where "n = Suc m" by (cases n) auto
  ultimately have loop: "sample_loop exact_arith (Suc m) s sl 5 [] unused r 0 = Some (Inr (ids, unused', r'))"
    by simp
  then obtain gids rids sz nl reached r1 where
    chunk: "get_a_chunk_of_streamlines exact_arith s sl unused 0 5 r = Inr (Ret5 gids rids sz nl reached, r1)"
    by (auto split: sum.splits chunk_ret.splits prod.splits)
  from count_chunk_keeps_four [OF units chunk5 chunk]
  have "length rids = 4" and "reached" and "\<not> nl" by simp_all
  with loop chunk show ?thesis
    by (auto split: sum.splits)
qed

lemma count_subj_loop_single:
  assumes units: "batch_size_units s \<noteq> ''length_mm''"
    and chunk5: "nb_streamlines_per_chunk s = 5"
    and run: "subj_loop exact_arith n s ips 5 [subj] [] unused r = Some (Inr (b, unused', r'))"
  shows "map (\<lambda>p. length (snd p)) b = [4]"
proof -
  from run obtain ids u1 r1 where
    one: "sample_streamlines_for_subj exact_arith n s subj ips unused 5 r = Some (Inr (ids, u1, r1))"
    and b: "b = [(subj, ids)]"
    by (auto split: option.splits sum.splits)
  from count_sample_four [OF units chunk5 one] b show ?thesis by simp
qed

lemma choose_one_subject:
  assumes "nb_subjects_per_batch s = Some 1"
    and "choose_subjects exact_arith s ips sps r = Inr (subjs, nb, r')"
  shows "length subjs = nb \<and> nb \<le> 1"
proof -
  define nonzero where
    "nonzero = filter (\<lambda>i. map (\<lambda>c. fdiv exact_arith (of_nat c) (of_nat (sum_list sps))) sps ! i
                             \<noteq> 0)
                 [0..<length (map (\<lambda>c. fdiv exact_arith (of_nat c) (of_nat (sum_list sps))) sps)]"
  from assms have "subjs = fst (choice_no_replace r nonzero nb) \<and> nb = min 1 (length nonzero)"
    by (auto simp: choose_subjects_def Let_def nonzero_def split: if_splits prod.splits)
  then show ?thesis using length_choice_no_replace [of r nonzero nb] by simp
qed

lemma scenario_A_loops:
  assumes units: "batch_size_units s \<noteq> ''length_mm''"
    and chunk5: "nb_streamlines_per_chunk s = 5"
    and b5: "batch_size s = 5"
    and one: "nb_subjects_per_batch s = Some 1"
  shows "list_all (\<lambda>b. map (\<lambda>p. length (snd p)) b = [4]) (fst (outer_loop exact_arith n s ips unused r))
       \<and> (length subjs = 1 \<longrightarrow>
            list_all (\<lambda>b. map (\<lambda>p. length (snd p)) b = [4])
              (fst (cycle_loop exact_arith n s ips subjs 5 it unused r)))"
proof (induction n arbitrary: unused r subjs it)
  case 0
  show ?case by simp
next
  case (Suc n)
  let ?Q = "list_all (\<lambda>b. map (\<lambda>p. length (snd p)) b = [4])"
  have outer: "?Q (fst (outer_loop exact_arith (Suc n) s ips unused r))"
  proof -
    let ?sps = "map (\<lambda>(_, subj_id_slice). count_true (slice_get subj_id_slice unused)) ips"
    show ?thesis
    proof (cases "choose_subjects exact_arith s ips ?sps r")
      case (Inl e)
      then show ?thesis by (simp add: Let_def)
    next
      case (Inr t)
      obtain sampled nb r1 where t: "t = (sampled, nb, r1)" by (cases t) auto
      from choose_one_subject [OF one Inr [unfolded t]]
      have len: "length sampled = nb" and le: "nb \<le> 1" by simp_all
      show ?thesis
      proof (cases "nb = 0")
        case True
        with Inr t show ?thesis by (simp add: Let_def)
      next
        case False
        with le have nb1: "nb = 1" by simp
        with len have "length sampled = 1" by simp
        with Suc.IH [where subjs = sampled and unused = unused and r = r1]
        have "?Q (fst (cycle_loop exact_arith n s ips sampled 5
                     (if truthy (cycles s) then cycles s else None) unused r1))" by blast
        with Inr t nb1 b5 show ?thesis by (simp add: Let_def exact_arith_def)
      qed
    qed
  qed
  have cycle: "?Q (fst (cycle_loop exact_arith (Suc n) s ips subjs 5 it unused r))" if l1: "length subjs = 1"
  proof (cases "it = Some 0")
    case True
    with Suc.IH [where unused = unused and r = r] show ?thesis by simp
  next
    case False
    from l1 obtain subj where subjs: "subjs = [subj]"
      by (cases subjs) auto
    show ?thesis
    proof (cases "subj_loop exact_arith n s ips 5 subjs [] unused r")
      case None
      with False show ?thesis by simp
    next
      case (Some res)
      show ?thesis
      proof (cases res)
        case (Inl e)
        with Some False show ?thesis by simp
      next
        case (Inr t)
        obtain b u1 r1 where t: "t = (b, u1, r1)" by (cases t) auto
        from count_subj_loop_single [OF units chunk5 Some [unfolded Inr t subjs]]
        have q: "map (\<lambda>p. length (snd p)) b = [4]" .
        then have bne: "length b \<noteq> 0" by auto
        from Suc.IH [where subjs = subjs and it = "map_option (\<lambda>c. c - 1) it"
                       and unused = u1 and r = r1] l1
        have "?Q (fst (cycle_loop exact_arith n s ips subjs 5 (map_option (\<lambda>c. c - 1) it) u1 r1))" by blast
        with Some Inr t False q bne show ?thesis
          by (auto split: prod.splits)
      qed
    qed
  qed
  from outer cycle show ?case by blast
qed

lemma scenario_A_every_batch:
  "list_all (\<lambda>b. map (\<lambda>p. length (snd p)) b = [4])
     (fst (iter exact_arith n (count_sampler scenario_A_dataset 5 (Some 1) (Some 1) r)))"
proof -
  let ?s = "count_sampler scenario_A_dataset 5 (Some 1) (Some 1) r"
  have "batch_size_units ?s \<noteq> ''length_mm''" "nb_streamlines_per_chunk ?s = 5"
    "batch_size ?s = 5" "nb_subjects_per_batch ?s = Some 1"
    by (simp_all add: count_sampler_def)
  from scenario_A_loops [OF this]
  have "\<And>ips unused r0. list_all (\<lambda>b. map (\<lambda>p. length (snd p)) b = [4])
          (fst (outer_loop exact_arith n ?s ips unused r0))" by blast
  then show ?thesis by (simp add: iter_def Let_def)
qed

lemma scenario_A_zero_tape:
  "iter exact_arith 50 (count_sampler scenario_A_dataset 5 (Some 1) (Some 1) []) =
   ([[(0, [0, 0, 0, 0])], [(0, [1, 1, 1, 1])], [(0, [2, 2, 2, 2])],
   [(0, [3, 3, 3, 3])], [(0, [4, 4, 4, 4])], [(0, [5, 5, 5, 5])],
   [(0, [6, 6, 6, 6])], [(0, [7, 7, 7, 7])], [(0, [8, 8, 8, 8])],
   [(0, [9, 9, 9, 9])], [(1, [0, 0, 0, 0])], [(1, [1, 1, 1, 1])],
   [(1, [2, 2, 2, 2])], [(1, [3, 3, 3, 3])], [(1, [4, 4, 4, 4])]],
  Exhausted)"
  by code_simp

text \<open>
  C4. The claim: in scenario A (slices \<open>[0, 10)\<close> and \<open>[10, 15)\<close>, a batch size of 5
  streamlines, one subject per batch, one cycle) every batch has one subject and 5
  relative ids, then fewer when the subject has fewer than 5 left. In the code every
  batch yielded has one subject and 4 relative ids, whatever the tape and the fuel: the
  chunk of 5 reaches the maximum of 5.0 and the trim keeps the ids whose cumulated size
  is strictly below it (sums of at most five ones: float64 does not round them). With the
  tape of zeros the epoch is 15 batches, each of them one streamline four times.
\<close>
theorem scenario_A_batches_of_four:
  "list_all (\<lambda>b. map (\<lambda>p. length (snd p)) b = [4])
     (fst (iter exact_arith n (count_sampler scenario_A_dataset 5 (Some 1) (Some 1) r)))
   \<and> iter exact_arith 50 (count_sampler scenario_A_dataset 5 (Some 1) (Some 1) []) =
       ([[(0, [0, 0, 0, 0])], [(0, [1, 1, 1, 1])], [(0, [2, 2, 2, 2])],
         [(0, [3, 3, 3, 3])], [(0, [4, 4, 4, 4])], [(0, [5, 5, 5, 5])],
         [(0, [6, 6, 6, 6])], [(0, [7, 7, 7, 7])], [(0, [8, 8, 8, 8])],
         [(0, [9, 9, 9, 9])], [(1, [0, 0, 0, 0])], [(1, [1, 1, 1, 1])],
         [(1, [2, 2, 2, 2])], [(1, [3, 3, 3, 3])], [(1, [4, 4, 4, 4])]],
        Exhausted)"
  using scenario_A_every_batch [of n r] scenario_A_zero_tape by blast

text \<open>With a tape that draws five different streamlines, the first batch keeps four.\<close>

lemma scenario_A_first_batch:
  "iter exact_arith 3 (count_sampler scenario_A_dataset 5 (Some 1) (Some 1) [0, 0, 1, 2, 3, 4]) =
     ([[(0, [0, 1, 2, 3])]], OutOfFuel)"
  by code_simp

subsection \<open>The trim of a chunk\<close>

lemma mask_select_none: "\<forall>b\<in>set bs. \<not> b \<Longrightarrow> mask_select xs bs = []"
  by (auto simp: mask_select_def filter_empty_conv dest: set_zip_rightD)

lemma length_cumsum_from: "length (cumsum_from ar acc xs) = length xs"
  by (induction xs arbitrary: acc) simp_all

lemma length_cumsum: "length (cumsum ar xs) = length xs"
  by (cases xs) (simp_all add: cumsum_def length_cumsum_from)

lemma cumsum_from_ge:
  assumes "add_does_not_decrease ar" and "\<forall>c\<in>set xs. 0 \<le> c"
    and "y \<in> set (cumsum_from ar acc xs)"
  shows "acc \<le> y"
  using assms(2,3)
proof (induction xs arbitrary: acc)
  case Nil
  then show ?case by simp
next
  case (Cons x xs)
  from Cons.prems have "0 \<le> x" and rest: "\<forall>c\<in>set xs. 0 \<le> c" by simp_all
  have step: "acc \<le> fadd ar acc x"
    using assms(1) \<open>0 \<le> x\<close> by (simp add: add_does_not_decrease_def)
  from Cons.prems(2) have "y = fadd ar acc x \<or> y \<in> set (cumsum_from ar (fadd ar acc x) xs)"
    by simp
  then show ?case
  proof
    assume "y = fadd ar acc x" with step show ?thesis by simp
  next
    assume "y \<in> set (cumsum_from ar (fadd ar acc x) xs)"
    from Cons.IH [OF rest this] step show ?thesis by simp
  qed
qed

lemma mask_select_prefix_from:
  assumes "add_does_not_decrease ar" and "\<forall>c\<in>set sizes. 0 \<le> c"
    and "length xs = length sizes"
  shows "mask_select xs (map (\<lambda>c. c < a) (cumsum_from ar acc sizes)) =
           take (length (takeWhile (\<lambda>c. c < a) (cumsum_from ar acc sizes))) xs"
  using assms(2,3)
proof (induction sizes arbitrary: xs acc)
  case Nil
  then show ?case by (simp add: mask_select_simps)
next
  case (Cons c sizes)
  from Cons.prems obtain x xs' where xs: "xs = x # xs'" and len: "length xs' = length sizes"
    by (cases xs) auto
  from Cons.prems have rest: "\<forall>c\<in>set sizes. 0 \<le> c" by simp
  show ?case
  proof (cases "fadd ar acc c < a")
    case True
    then show ?thesis using Cons.IH [OF rest len, of "fadd ar acc c"] xs
      by (simp add: mask_select_simps)
  next
    case False
    have "\<forall>b\<in>set (map (\<lambda>c. c < a) (cumsum_from ar (fadd ar acc c) sizes)). \<not> b"
      using cumsum_from_ge [OF assms(1) rest, of _ "fadd ar acc c"] False by fastforce
    then show ?thesis using False xs
      by (simp add: mask_select_simps mask_select_none)
  qed
qed

lemma mask_select_prefix:
  assumes "add_does_not_decrease ar" and "\<forall>c\<in>set sizes. 0 \<le> c"
    and "length xs = length sizes"
  shows "mask_select xs (map (\<lambda>c. c < a) (cumsum ar sizes)) =
           take (length (takeWhile (\<lambda>c. c < a) (cumsum ar sizes))) xs"
proof (cases sizes)
  case Nil
  then show ?thesis by (simp add: cumsum_def mask_select_simps)
next
  case (Cons c rest)
  from assms(3) Cons obtain x xs' where xs: "xs = x # xs'" and len: "length xs' = length rest"
    by (cases xs) auto
  from assms(2) Cons have nonneg: "\<forall>c\<in>set rest. 0 \<le> c" by simp
  show ?thesis
  proof (cases "c < a")
    case True
    then show ?thesis
      using mask_select_prefix_from [OF assms(1) nonneg len, of a c] xs Cons
      by (simp add: cumsum_def mask_select_simps)
  next
    case False
    have "\<forall>b\<in>set (map (\<lambda>c. c < a) (cumsum_from ar c rest)). \<not> b"
      using cumsum_from_ge [OF assms(1) nonneg, of _ c] False by fastforce
    then show ?thesis using False xs Cons
      by (simp add: cumsum_def mask_select_simps mask_select_none)
  qed
qed

lemma compute_sizes_length:
  "compute_and_adjust_batch_size s chosen = Inr sizes \<Longrightarrow> length sizes = length chosen"
  by (auto simp: compute_and_adjust_batch_size_def Let_def split: if_splits)

text \<open>
  C5. Whatever the rounding of the float operations, provided that adding a non-negative
  float does not decrease a sum, and streamline sizes being non-negative (lengths in mm,
  or ones): when the size already taken for the subject plus the size of the chunk drawn,
  as the code computes them (\<open>current + np.sum(sizes)\<close>), reaches the subject's maximum,
  the chunk returned is a prefix of the draw, of \<open>k\<close> streamlines, flagged as having
  reached the maximum, with \<open>np.sum\<close> of the sizes kept as its size. The cumulative size
  (\<open>np.cumsum\<close>) of each of the first \<open>k\<close> streamlines is strictly below what the subject may
  still take (\<open>max - current\<close>), and that of the next one, if there is one, is not: \<open>k\<close> is
  the longest. The witness is scenario C: lengths 50, 60 and 5 mm, a maximum of 100, the
  draw \<open>[0, 1, 2]\<close>; the chunk returned is \<open>[0]\<close>, of size 50.
\<close>
theorem chunk_trimmed_to_longest_prefix:
  assumes mono: "add_does_not_decrease ar"
    and ids: "map (\<lambda>i. i + fst sl) (flatnonzero (slice_get sl unused)) \<noteq> []"
    and draw: "choice r (map (\<lambda>i. i + fst sl) (flatnonzero (slice_get sl unused)))
                 (nb_streamlines_per_chunk s) = (chosen, r')"
    and sizes: "compute_and_adjust_batch_size s chosen = Inr sizes"
    and nonneg: "\<forall>c\<in>set sizes. 0 \<le> c"
    and reach: "maxb \<le> fadd ar cur (np_sum ar sizes)"
  shows "\<exists>k. k \<le> length chosen
      \<and> get_a_chunk_of_streamlines ar s sl unused cur maxb r =
          Inr (Ret5 (take k chosen) (map (\<lambda>g. g - fst sl) (take k chosen))
                 (np_sum ar (take k sizes)) False True, r')
      \<and> (\<forall>j. j < k \<longrightarrow> cumsum ar sizes ! j < fsub ar maxb cur)
      \<and> (k < length chosen \<longrightarrow> fsub ar maxb cur \<le> cumsum ar sizes ! k)"
proof -
  let ?P = "\<lambda>c. c < fsub ar maxb cur"
  let ?cs = "cumsum ar sizes"
  let ?k = "length (takeWhile ?P ?cs)"
  have len: "length sizes = length chosen" by (rule compute_sizes_length [OF sizes])
  have k_le: "?k \<le> length chosen"
    using length_takeWhile_le [of ?P ?cs] by (simp add: length_cumsum len)
  have sel1: "mask_select chosen (map ?P ?cs) = take ?k chosen"
    using mask_select_prefix [OF mono nonneg, of chosen] len by simp
  have sel2: "mask_select sizes (map ?P ?cs) = take ?k sizes"
    using mask_select_prefix [OF mono nonneg, of sizes] by simp
  have res: "get_a_chunk_of_streamlines ar s sl unused cur maxb r =
          Inr (Ret5 (take ?k chosen) (map (\<lambda>g. g - fst sl) (take ?k chosen))
                 (np_sum ar (take ?k sizes)) False True, r')"
    using ids draw sizes reach
    by (simp add: get_a_chunk_of_streamlines_def Let_def sel1 sel2)
  have below: "\<forall>j. j < ?k \<longrightarrow> ?cs ! j < fsub ar maxb cur"
  proof (intro allI impI)
    fix j assume j: "j < ?k"
    have "takeWhile ?P ?cs ! j \<in> set (takeWhile ?P ?cs)" using j by simp
    then have "?P (takeWhile ?P ?cs ! j)" by (blast dest: set_takeWhileD)
    moreover have "takeWhile ?P ?cs ! j = ?cs ! j" using j by (rule takeWhile_nth)
    ultimately show "?cs ! j < fsub ar maxb cur" by simp
  qed
  have above: "?k < length chosen \<longrightarrow> fsub ar maxb cur \<le> ?cs ! ?k"
  proof
    assume lt: "?k < length chosen"
    then have "?k < length ?cs" by (simp add: length_cumsum len)
    then have "\<not> ?P (?cs ! ?k)" by (rule nth_length_takeWhile)
    then show "fsub ar maxb cur \<le> ?cs ! ?k" by simp
  qed
  from k_le res below above show ?thesis by blast
qed

theorem chunk_trimmed_to_longest_prefix_witness:
  "add_does_not_decrease exact_arith
   \<and> map (\<lambda>i. i + fst (0::nat, 3::nat)) (flatnonzero (slice_get (0, 3) [True, True, True])) \<noteq> []
   \<and> choice [0, 1, 2] (map (\<lambda>i. i + fst (0::nat, 3::nat)) (flatnonzero (slice_get (0, 3) [True, True, True])))
        (nb_streamlines_per_chunk (length_sampler scenario_C_dataset 100 3 None None [0, 1, 2]))
       = ([0, 1, 2], [])
   \<and> compute_and_adjust_batch_size (length_sampler scenario_C_dataset 100 3 None None [0, 1, 2]) [0, 1, 2]
       = Inr [50, 60, 5]
   \<and> list_all (\<lambda>c. 0 \<le> c) [50, 60, 5 :: rat]
   \<and> (100 :: rat) \<le> fadd exact_arith 0 (np_sum exact_arith [50, 60, 5])
   \<and> get_a_chunk_of_streamlines exact_arith
        (length_sampler scenario_C_dataset 100 3 None None [0, 1, 2])
        (0, 3) [True, True, True] 0 100 [0, 1, 2]
       = Inr (Ret5 [0] [0] 50 False True, [])"
proof -
  let ?s = "length_sampler scenario_C_dataset 100 3 None None [0, 1, 2]"
  have h0: "add_does_not_decrease exact_arith"
    by (simp add: add_does_not_decrease_def exact_arith_def)
  have h1: "map (\<lambda>i. i + fst (0::nat, 3::nat)) (flatnonzero (slice_get (0, 3) [True, True, True])) \<noteq> []"
    by code_simp
  have h2: "choice [0, 1, 2] (map (\<lambda>i. i + fst (0::nat, 3::nat)) (flatnonzero (slice_get (0, 3) [True, True, True])))
        (nb_streamlines_per_chunk ?s) = ([0, 1, 2], [])"
    by code_simp
  have h3: "compute_and_adjust_batch_size ?s [0, 1, 2] = Inr [50, 60, 5]"
    by code_simp
  have h4: "\<forall>c\<in>set [50, 60, 5 :: rat]. 0 \<le> c" by simp
  have h5: "(100 :: rat) \<le> fadd exact_arith 0 (np_sum exact_arith [50, 60, 5])"
    by (simp add: exact_arith_def)
  have cs: "cumsum exact_arith [50, 60, 5] = [50, 110, 115]"
    by (simp add: cumsum_def exact_arith_def)
  from chunk_trimmed_to_longest_prefix [OF h0 h1 h2 h3 h4 h5]
  obtain k where res: "get_a_chunk_of_streamlines exact_arith ?s (0, 3) [True, True, True] 0 100
                         [0, 1, 2] =
          Inr (Ret5 (take k [0, 1, 2]) (map (\<lambda>g. g - fst (0::nat, 3::nat)) (take k [0, 1, 2]))
                 (np_sum exact_arith (take k [50, 60, 5])) False True, [])"
    and below: "\<forall>j. j < k \<longrightarrow> cumsum exact_arith [50, 60, 5] ! j < fsub exact_arith 100 0"
    and above: "k < length [0::nat, 1, 2] \<longrightarrow>
                  fsub exact_arith 100 0 \<le> cumsum exact_arith [50, 60, 5] ! k"
    by blast
  have "k \<noteq> 0"
  proof
    assume "k = 0"
    with above show False by (simp add: cs [unfolded exact_arith_def] exact_arith_def)
  qed
  moreover have "\<not> 1 < k"
  proof
    assume "1 < k"
    with below have "cumsum exact_arith [50, 60, 5] ! 1 < fsub exact_arith 100 0" by blast
    then show False by (simp add: cs [unfolded exact_arith_def] exact_arith_def)
  qed
  ultimately have "k = 1" by simp
  with res have "get_a_chunk_of_streamlines exact_arith ?s (0, 3) [True, True, True] 0 100
                   [0, 1, 2]
       = Inr (Ret5 [0] [0] 50 False True, [])" by (simp add: exact_arith_def)
  moreover have "list_all (\<lambda>c. 0 \<le> c) [50, 60, 5 :: rat]" by simp
  ultimately show ?thesis using h0 h1 h2 h3 h5 by blast
qed

subsection \<open>The budget of a subject, in number of streamlines\<close>

text \<open>
  In number of streamlines every size is 1.0 and the code only adds whole numbers. The
  lemmas below take an arithmetic that, up to a bound \<open>N\<close>, adds whole numbers without
  rounding, as float64 does below \<open>2^53\<close>.
\<close>

lemma cumsum_from_ones_nth:
  assumes add: "\<And>i j. i + j \<le> N \<Longrightarrow> fadd ar (of_nat i) (of_nat j) = of_nat (i + j)"
  shows "a + m \<le> N \<Longrightarrow> j < m \<Longrightarrow>
           cumsum_from ar (of_nat a) (replicate m 1) ! j = of_nat (Suc (a + j))"
proof (induction m arbitrary: a j)
  case 0
  then show ?case by simp
next
  case (Suc m)
  have step: "fadd ar (of_nat a) 1 = of_nat (Suc a)"
    using add [of a 1] Suc.prems(1) by simp
  show ?case
  proof (cases j)
    case 0
    then show ?thesis by (simp add: step)
  next
    case (Suc j')
    with Suc.prems have "Suc a + m \<le> N" and "j' < m" by simp_all
    from Suc.IH [OF this] Suc show ?thesis by (simp add: step)
  qed
qed

lemma cumsum_ones_nth:
  assumes add: "\<And>i j. i + j \<le> N \<Longrightarrow> fadd ar (of_nat i) (of_nat j) = of_nat (i + j)"
    and "m \<le> N" and "j < m"
  shows "cumsum ar (replicate m 1) ! j = of_nat (Suc j)"
proof (cases m)
  case 0
  with assms(3) show ?thesis by simp
next
  case (Suc m')
  show ?thesis
  proof (cases j)
    case 0
    then show ?thesis by (simp add: cumsum_def Suc)
  next
    case (Suc j')
    with assms(2,3) \<open>m = Suc m'\<close> have "1 + m' \<le> N" and "j' < m'" by simp_all
    from cumsum_from_ones_nth [of N ar 1 m' j', OF add this]
    have "cumsum_from ar 1 (replicate m' 1) ! j' = of_nat (Suc (Suc j'))" by simp
    then show ?thesis by (simp add: cumsum_def \<open>m = Suc m'\<close> Suc)
  qed
qed

lemma count_chunk_budget:
  assumes units: "batch_size_units s \<noteq> ''length_mm''"
    and mono: "add_does_not_decrease ar"
    and sum1: "\<And>m. m \<le> N \<Longrightarrow> np_sum ar (replicate m 1) = of_nat m"
    and add: "\<And>i j. i + j \<le> N \<Longrightarrow> fadd ar (of_nat i) (of_nat j) = of_nat (i + j)"
    and sub: "\<And>i j. i + j \<le> N \<Longrightarrow> of_nat j < fsub ar maxb (of_nat i) \<Longrightarrow>
                 of_nat (i + j) \<le> maxb"
    and bound: "t + nb_streamlines_per_chunk s \<le> N"
    and chunk: "get_a_chunk_of_streamlines ar s sl unused (of_nat t) maxb r =
                  Inr (Ret5 gids rids sz nl reached, r')"
  shows "\<not> nl
       \<and> (reached \<longrightarrow> length rids = 0 \<or> of_nat (t + length rids) \<le> maxb)
       \<and> (\<not> reached \<longrightarrow> length rids = nb_streamlines_per_chunk s
                         \<and> fadd ar (of_nat t) sz = of_nat (t + length rids)
                         \<and> of_nat (t + length rids) < maxb)"
proof -
  let ?k = "nb_streamlines_per_chunk s"
  let ?ids = "map (\<lambda>i. i + fst sl) (flatnonzero (slice_get sl unused))"
  from chunk have ne: "?ids \<noteq> []"
    by (auto simp: get_a_chunk_of_streamlines_def Let_def split: if_splits)
  obtain chosen r1 where draw: "choice r ?ids ?k = (chosen, r1)"
    by (cases "choice r ?ids ?k")
  have lc: "length chosen = ?k" using length_choice [of r ?ids ?k] draw by simp
  have sizes: "compute_and_adjust_batch_size s chosen = Inr (replicate ?k 1)"
    using units lc by (simp add: compute_and_adjust_batch_size_def)
  have kN: "?k \<le> N" using bound by simp
  have total: "fadd ar (of_nat t) (np_sum ar (replicate ?k 1)) = of_nat (t + ?k)"
    using sum1 [OF kN] add [OF bound] by simp
  show ?thesis
  proof (cases "maxb \<le> of_nat (t + ?k)")
    case True
    let ?P = "\<lambda>c. c < fsub ar maxb (of_nat t)"
    let ?cs = "cumsum ar (replicate ?k 1)"
    let ?m = "length (takeWhile ?P ?cs)"
    have sel: "mask_select chosen (map ?P ?cs) = take ?m chosen"
      using mask_select_prefix [OF mono, of "replicate ?k 1" chosen] lc by simp
    have m_le: "?m \<le> ?k"
      using length_takeWhile_le [of ?P ?cs] by (simp add: length_cumsum)
    from chunk ne draw sizes True total
    have r: "rids = map (\<lambda>g. g - fst sl) (take ?m chosen)" and n: "\<not> nl" and re: reached
      by (auto simp: get_a_chunk_of_streamlines_def Let_def sel)
    have len: "length rids = ?m" using r lc m_le by simp
    have "of_nat (t + ?m) \<le> maxb" if "?m \<noteq> 0"
    proof -
      from that obtain j where j: "?m = Suc j" by (cases ?m) auto
      then have jm: "j < ?m" by simp
      have "takeWhile ?P ?cs ! j \<in> set (takeWhile ?P ?cs)" using jm by simp
      then have "?P (takeWhile ?P ?cs ! j)" by (blast dest: set_takeWhileD)
      moreover have "takeWhile ?P ?cs ! j = ?cs ! j" using jm by (rule takeWhile_nth)
      moreover have "?cs ! j = of_nat (Suc j)"
        using cumsum_ones_nth [of N ar ?k j, OF add kN] jm m_le by simp
      ultimately have "of_nat ?m < fsub ar maxb (of_nat t)" using j by simp
      moreover have "t + ?m \<le> N" using bound m_le by simp
      ultimately show ?thesis using sub [of t ?m] by simp
    qed
    with len n re show ?thesis by auto
  next
    case False
    from chunk ne draw sizes False total
    have r: "rids = map (\<lambda>g. g - fst sl) chosen" and n: "\<not> nl" and re: "\<not> reached"
      and s: "sz = np_sum ar (replicate ?k 1)"
      by (auto simp: get_a_chunk_of_streamlines_def Let_def)
    have len: "length rids = ?k" using r lc by simp
    with n re s total False show ?thesis by simp
  qed
qed

lemma count_loop_budget:
  assumes units: "batch_size_units s \<noteq> ''length_mm''"
    and mono: "add_does_not_decrease ar"
    and sum1: "\<And>m. m \<le> N \<Longrightarrow> np_sum ar (replicate m 1) = of_nat m"
    and add: "\<And>i j. i + j \<le> N \<Longrightarrow> fadd ar (of_nat i) (of_nat j) = of_nat (i + j)"
    and sub: "\<And>i j. i + j \<le> N \<Longrightarrow> of_nat j < fsub ar maxb (of_nat i) \<Longrightarrow>
                 of_nat (i + j) \<le> maxb"
    and small: "\<And>t. t = 0 \<or> of_nat t < maxb \<Longrightarrow> t + nb_streamlines_per_chunk s \<le> N"
  shows "sample_loop ar n s sl maxb sampled unused r (of_nat (length sampled)) =
           Some (Inr (ids, unused', r')) \<Longrightarrow>
         length sampled = 0 \<or> of_nat (length sampled) < maxb \<Longrightarrow>
         length ids = 0 \<or> of_nat (length ids) \<le> maxb"
proof (induction n arbitrary: sampled unused r)
  case 0
  then show ?case by simp
next
  case (Suc n)
  let ?t = "length sampled"
  from Suc.prems(1) obtain gids rids sz nl reached r1 where
    chunk: "get_a_chunk_of_streamlines ar s sl unused (of_nat ?t) maxb r =
              Inr (Ret5 gids rids sz nl reached, r1)"
    by (auto split: sum.splits chunk_ret.splits prod.splits)
  have bound: "?t + nb_streamlines_per_chunk s \<le> N" by (rule small [OF Suc.prems(2)])
  from count_chunk_budget [OF units mono sum1 add sub bound chunk]
  have nl: "\<not> nl"
    and r1: "reached \<Longrightarrow> length rids = 0 \<or> of_nat (?t + length rids) \<le> maxb"
    and r2: "\<not> reached \<Longrightarrow> fadd ar (of_nat ?t) sz = of_nat (?t + length rids)
                              \<and> of_nat (?t + length rids) < maxb"
    by auto
  from Suc.prems(1) chunk nl obtain unused1 where
    clr: "mask_clear unused gids = Inr unused1"
    by (cases "mask_clear unused gids") auto
  show ?case
  proof (cases reached)
    case True
    with Suc.prems(1) chunk nl clr have ids: "ids = sampled @ rids" by simp
    from r1 [OF True] show ?thesis
    proof
      assume "length rids = 0"
      with ids Suc.prems(2) show ?thesis by auto
    next
      assume "of_nat (?t + length rids) \<le> maxb"
      with ids show ?thesis by simp
    qed
  next
    case False
    from r2 [OF False]
    have tot: "fadd ar (of_nat ?t) sz = of_nat (length (sampled @ rids))"
      and lt: "of_nat (length (sampled @ rids)) < maxb" by simp_all
    from Suc.prems(1) chunk nl clr False tot
    have "sample_loop ar n s sl maxb (sampled @ rids) unused1 r1
            (of_nat (length (sampled @ rids))) = Some (Inr (ids, unused', r'))" by simp
    from Suc.IH [OF this] lt show ?thesis by blast
  qed
qed

text \<open>
  The first half of claim C8, on the code as it computes: in number of streamlines, with
  \<open>B_subj = batch_size / nb_subjects\<close>, a subject contributes at most \<open>ceil(B_subj)\<close>
  relative ids to a batch. The hypotheses on the arithmetic are properties of float64 for
  whole numbers below \<open>2^53\<close> (here below \<open>N\<close>): sums of ones and of whole numbers are
  exact, a whole number strictly below a rounded difference \<open>max - i\<close> is at most the exact
  difference, and the rounded quotient is not above the next whole number.
\<close>
lemma count_budget_respected:
  assumes units: "batch_size_units s \<noteq> ''length_mm''"
    and run: "sample_streamlines_for_subj ar fuel s subj ids_per_subjs unused maxb r =
                Some (Inr (ids, unused', r'))"
    and maxb: "maxb = fdiv ar (of_int (batch_size s)) (of_nat nb_subjects)"
    and pos: "0 < batch_size s" "0 < nb_subjects"
    and mono: "add_does_not_decrease ar"
    and sum1: "\<And>m. m \<le> N \<Longrightarrow> np_sum ar (replicate m 1) = of_nat m"
    and add: "\<And>i j. i + j \<le> N \<Longrightarrow> fadd ar (of_nat i) (of_nat j) = of_nat (i + j)"
    and sub: "\<And>i j. i + j \<le> N \<Longrightarrow> of_nat j < fsub ar maxb (of_nat i) \<Longrightarrow>
                 of_nat (i + j) \<le> maxb"
    and quot: "maxb \<le> of_int \<lceil>of_int (batch_size s) / (of_nat nb_subjects :: rat)\<rceil>"
    and big: "nat (batch_size s) + nb_streamlines_per_chunk s \<le> N"
  shows "int (length ids) \<le> \<lceil>of_int (batch_size s) / (of_nat nb_subjects :: rat)\<rceil>"
proof -
  let ?B = "of_int (batch_size s) / (of_nat nb_subjects :: rat)"
  have B_le: "?B \<le> of_int (batch_size s)"
  proof -
    have "(of_int (batch_size s) :: rat) * 1 \<le> of_int (batch_size s) * of_nat nb_subjects"
      using pos by (intro mult_left_mono) simp_all
    then show ?thesis using pos(2) by (simp add: pos_divide_le_eq)
  qed
  then have ceil_le: "\<lceil>?B\<rceil> \<le> batch_size s" by (simp add: ceiling_le_iff)
  have B_pos: "0 < ?B" using pos by simp
  then have ceil_pos: "0 \<le> \<lceil>?B\<rceil>" by (simp add: less_imp_le)
  have small: "t + nb_streamlines_per_chunk s \<le> N" if "t = 0 \<or> of_nat t < maxb" for t
  proof -
    have "int t \<le> batch_size s"
      using that
    proof
      assume "t = 0" with pos(1) show ?thesis by simp
    next
      assume "of_nat t < maxb"
      with quot have "(of_int (int t) :: rat) < of_int \<lceil>?B\<rceil>" by simp
      then have "int t < \<lceil>?B\<rceil>" by (simp only: of_int_less_iff)
      with ceil_le show ?thesis by simp
    qed
    then have "t \<le> nat (batch_size s)" by simp
    with big show ?thesis by simp
  qed
  from run obtain sl where
    loop: "sample_loop ar fuel s sl maxb [] unused r (of_nat (length ([]::nat list))) =
             Some (Inr (ids, unused', r'))"
    by (auto simp: sample_streamlines_for_subj_def split: option.splits)
  from count_loop_budget [OF units mono sum1 add sub small loop]
  have "length ids = 0 \<or> of_nat (length ids) \<le> maxb" by simp
  then show ?thesis
  proof
    assume "length ids = 0" with ceil_pos show ?thesis by simp
  next
    assume "of_nat (length ids) \<le> maxb"
    with quot have "(of_int (int (length ids)) :: rat) \<le> of_int \<lceil>?B\<rceil>" by simp
    then show ?thesis by (simp only: of_int_le_iff)
  qed
qed

end
